theory Spec2Isabelle
  imports Complex_Main "HOL-Library.Word"
begin

section \<open>JavaScript values of the report draft\<close>

text \<open>
  A JavaScript number is NaN, an infinity or a finite value. The tool-call argument object
  (\<open>data: any\<close> in the source) is an association list from property names to values; a
  property that is absent reads as \<open>undefined\<close>. The values of its properties are
  primitive values; nested objects and arrays are left out.
\<close>

datatype jsnum = NaN | PosInfinity | NegInfinity | Fin real

datatype jsval = JUndefined | JNull | JBool bool | JNum jsnum | JStr string

type_synonym jsobject = "(string \<times> jsval) list"

definition getProp :: "jsobject \<Rightarrow> string \<Rightarrow> jsval" where
  "getProp obj k = (case map_of obj k of None \<Rightarrow> JUndefined | Some v \<Rightarrow> v)"

text \<open>
  \<open>Number(v)\<close>. The conversion of a string is the runtime's StringToNumber, taken as the
  parameter \<open>parse\<close>.
\<close>

fun Number :: "(string \<Rightarrow> jsnum) \<Rightarrow> jsval \<Rightarrow> jsnum" where
  "Number parse JUndefined = NaN"
| "Number parse JNull = Fin 0"
| "Number parse (JBool b) = Fin (if b then 1 else 0)"
| "Number parse (JNum n) = n"
| "Number parse (JStr s) = parse s"

fun isNaN :: "jsnum \<Rightarrow> bool" where
  "isNaN NaN = True"
| "isNaN _ = False"

text \<open>Truthiness of a value, as an \<open>if\<close> or \<open>&&\<close> of the source tests it.\<close>

fun truthy :: "jsval \<Rightarrow> bool" where
  "truthy JUndefined = False"
| "truthy JNull = False"
| "truthy (JBool b) = b"
| "truthy (JNum n) = (n \<noteq> NaN \<and> n \<noteq> Fin 0)"
| "truthy (JStr s) = (s \<noteq> [])"

text \<open>
  String conversion in a template literal or a \<open>+\<close> with a string; the formatting of a
  number is the runtime's, taken as the parameter \<open>fmt\<close>.
\<close>

fun ToString :: "(jsnum \<Rightarrow> string) \<Rightarrow> jsval \<Rightarrow> string" where
  "ToString fmt JUndefined = ''undefined''"
| "ToString fmt JNull = ''null''"
| "ToString fmt (JBool b) = (if b then ''true'' else ''false'')"
| "ToString fmt (JNum n) = fmt n"
| "ToString fmt (JStr s) = s"

record runtime =
  StringToNumber :: "string \<Rightarrow> jsnum"
  NumberToString :: "jsnum \<Rightarrow> string"

section \<open>Types of the application\<close>

record GeoLocation =
  lat :: jsnum
  lng :: jsnum

datatype report_status = Pending | Dispatched | Resolved

text \<open>
  \<open>EmergencyReport\<close>. The id is \<open>Date.now().toString()\<close>; the model keeps the
  millisecond count it is printed from.
\<close>

record EmergencyReport =
  id :: nat
  timestamp :: nat
  location :: GeoLocation
  emergencyType :: jsval
  description :: string
  peopleCount :: jsval
  criticalNeeds :: jsval
  status :: report_status

section \<open>The report handler of the UI layer\<close>

text \<open>
  The part of the component state the handler reads and writes: the reference holding the
  latest device location, the list of reports and the toast.
\<close>

record app =
  userLocationRef :: "GeoLocation option"
  reports :: "EmergencyReport list"
  toastMessage :: "string option"

definition providedLat :: "runtime \<Rightarrow> jsobject \<Rightarrow> jsnum" where
  "providedLat rt data = Number (StringToNumber rt) (getProp data ''latitude'')"

definition providedLng :: "runtime \<Rightarrow> jsobject \<Rightarrow> jsnum" where
  "providedLng rt data = Number (StringToNumber rt) (getProp data ''longitude'')"

definition hasProvidedCoords :: "runtime \<Rightarrow> jsobject \<Rightarrow> bool" where
  "hasProvidedCoords rt data =
     (\<not> isNaN (providedLat rt data) \<and> \<not> isNaN (providedLng rt data) \<and>
      (providedLat rt data \<noteq> Fin 0 \<or> providedLng rt data \<noteq> Fin 0))"

text \<open>
  Steps 1 and 2 of the handler: the location chosen before the last resort, and whether
  it is the device's.
\<close>

definition chosenLocation :: "runtime \<Rightarrow> app \<Rightarrow> jsobject \<Rightarrow> GeoLocation option \<times> bool" where
  "chosenLocation rt a data =
     (if hasProvidedCoords rt data
      then (Some \<lparr>lat = providedLat rt data, lng = providedLng rt data\<rparr>, False)
      else (case userLocationRef a of
              Some loc \<Rightarrow> (Some loc, True)
            | None \<Rightarrow> (None, False)))"

definition defaultCenter :: GeoLocation where
  "defaultCenter = \<lparr>lat = Fin 34.0522, lng = Fin (- 118.2437)\<rparr>"

text \<open>Step 3: the default when no location was chosen.\<close>

definition reportLocation :: "runtime \<Rightarrow> app \<Rightarrow> jsobject \<Rightarrow> GeoLocation" where
  "reportLocation rt a data =
     (case fst (chosenLocation rt a data) of
        None \<Rightarrow> defaultCenter
      | Some loc \<Rightarrow> loc)"

definition locationPrefix :: "runtime \<Rightarrow> app \<Rightarrow> jsobject \<Rightarrow> string" where
  "locationPrefix rt a data =
     (if hasProvidedCoords rt data \<and> truthy (getProp data ''locationName'')
      then ''['' @ ToString (NumberToString rt) (getProp data ''locationName'') @ ''] ''
      else if snd (chosenLocation rt a data) then ''[Device GPS] '' else [])"

text \<open>
  The handler itself; \<open>now\<close> is the value of \<open>Date.now()\<close>. The new report is put in
  front of the list and the toast is shown.
\<close>

definition onReportSubmittedHandler :: "runtime \<Rightarrow> nat \<Rightarrow> app \<Rightarrow> jsobject \<Rightarrow> app" where
  "onReportSubmittedHandler rt now a data =
     (let newReport =
        \<lparr>id = now,
         timestamp = now,
         location = reportLocation rt a data,
         emergencyType = getProp data ''emergencyType'',
         description =
           locationPrefix rt a data @ ToString (NumberToString rt) (getProp data ''description''),
         peopleCount = getProp data ''peopleCount'',
         criticalNeeds = getProp data ''criticalNeeds'',
         status = Pending\<rparr>
      in a\<lparr>reports := newReport # reports a,
           toastMessage := Some ''Report Submitted Successfully''\<rparr>)"

text \<open>
  A call of a listener either returns or throws. The service calls the handler with
  \<open>fc.args\<close>, which may be absent: reading \<open>data.latitude\<close> of \<open>undefined\<close> throws,
  before anything is written; on an object the handler runs to its end.
\<close>

datatype completion = Returns | Throws

definition onReportSubmittedCall ::
  "runtime \<Rightarrow> nat \<Rightarrow> app \<Rightarrow> jsobject option \<Rightarrow> app \<times> completion" where
  "onReportSubmittedCall rt now a args =
     (case args of
        None \<Rightarrow> (a, Throws)
      | Some data \<Rightarrow> (onReportSubmittedHandler rt now a data, Returns))"

text \<open>The same listener as the service sees it: whether a call with this argument returns.\<close>

definition appListener :: "jsobject option \<Rightarrow> completion" where
  "appListener args = (case args of None \<Rightarrow> Throws | Some data \<Rightarrow> Returns)"

section \<open>The realtime session service\<close>

text \<open>
  Objects of the browser (audio contexts, media streams, audio nodes, the channel) are
  handles; each \<open>new\<close> or \<open>create...\<close> call takes the next unused one. The browser
  record says which of them are still open. Calls on collaborators and on the registered
  listeners are recorded as events, in the order the code makes them.
\<close>

type_synonym handle = nat

datatype error = PermissionError | ConnectionError | DecodeError

text \<open>A function call of a tool call; its argument object may be absent.\<close>

record functionCall =
  fc_id :: string
  fc_name :: string
  fc_args :: "jsobject option"

text \<open>
  One entry of \<open>functionResponses\<close>: \<open>{id, name, response: {result: {status, ticketId}}}\<close>.
  The ticket id is \<open>Date.now().toString()\<close>, kept as the millisecond count.
\<close>

record functionResponse =
  resp_id :: string
  resp_name :: string
  resp_status :: string
  resp_ticketId :: nat

datatype event =
    StatusChange string
  | AudioLevel real
  | ReportSubmitted "jsobject option"
  | SendRealtimeInput handle string string
  | SendToolResponse handle "functionResponse list"
  | BufferSourceStart handle real real
  | ConsoleError string
  | CreateAudioContext handle nat
  | ResumeContext handle
  | GetUserMedia handle
  | LiveConnect handle "GeoLocation option"
  | CreateMediaStreamSource handle handle handle
  | CreateScriptProcessor handle handle
  | ProcessorDisconnect handle
  | ClearOnAudioProcess handle
  | SourceDisconnect handle
  | TrackStop handle
  | CloseContext handle

text \<open>
  The fields of \<open>GeminiLiveService\<close>. The fields \<open>onAudioLevel\<close> and
  \<open>onStatusChange\<close> say whether a listener is registered; calling it is the event. The
  field \<open>onReportSubmitted\<close> holds the registered listener, as the function that says
  for each argument whether the call returns or throws; the call itself is the event.
\<close>

record service =
  inputAudioContext :: "handle option"
  outputAudioContext :: "handle option"
  stream :: "handle option"
  processor :: "handle option"
  source :: "handle option"
  nextStartTime :: real
  sessionPromise :: "handle option"
  currentSession :: "handle option"
  onReportSubmitted :: "(jsobject option \<Rightarrow> completion) option"
  onAudioLevel :: bool
  onStatusChange :: bool

record browser =
  fresh :: handle
  openContexts :: "handle set"
  liveStreams :: "handle set"
  wiredNodes :: "handle set"
  openChannels :: "handle set"

text \<open>The service as the constructor leaves it, and a browser with nothing open.\<close>

definition newService :: service where
  "newService =
     \<lparr>inputAudioContext = None, outputAudioContext = None, stream = None, processor = None,
      source = None, nextStartTime = 0, sessionPromise = None, currentSession = None,
      onReportSubmitted = None, onAudioLevel = False, onStatusChange = False\<rparr>"

definition newBrowser :: browser where
  "newBrowser =
     \<lparr>fresh = 0, openContexts = {}, liveStreams = {}, wiredNodes = {}, openChannels = {}\<rparr>"

text \<open>\<open>this.onStatusChange?.(text)\<close>\<close>

definition notifyStatus :: "service \<Rightarrow> string \<Rightarrow> event list" where
  "notifyStatus s txt = (if onStatusChange s then [StatusChange txt] else [])"

subsection \<open>connect\<close>

text \<open>
  What the environment answers during one \<open>connect()\<close>: whether each new context starts
  suspended, whether the microphone is granted, and whether the channel opens.
\<close>

record connectEnv =
  inputSuspended :: bool
  outputSuspended :: bool
  micGranted :: bool
  channelOpens :: bool

text \<open>
  \<open>connect(userLocation)\<close>. A rejected \<open>getUserMedia\<close> or a rejected session promise
  rejects \<open>connect\<close> at that point, with the fields written so far left as they are.
\<close>

definition connect ::
  "connectEnv \<Rightarrow> GeoLocation option \<Rightarrow> service \<Rightarrow> browser
     \<Rightarrow> (error + unit) \<times> service \<times> browser \<times> event list" where
  "connect env userLocation s w =
     (let ic = fresh w; oc = fresh w + 1;
          s1 = s\<lparr>inputAudioContext := Some ic, outputAudioContext := Some oc\<rparr>;
          w1 = w\<lparr>fresh := fresh w + 2, openContexts := openContexts w \<union> {ic, oc}\<rparr>;
          ev1 = notifyStatus s ''Initializing Audio...''
                @ [CreateAudioContext ic 16000, CreateAudioContext oc 24000]
                @ (if inputSuspended env then [ResumeContext ic] else [])
                @ (if outputSuspended env then [ResumeContext oc] else [])
                @ notifyStatus s ''Requesting Mic...''
      in if \<not> micGranted env then (Inl PermissionError, s1, w1, ev1)
         else
           (let st = fresh w1; ch = fresh w1 + 1;
                s2 = s1\<lparr>stream := Some st, sessionPromise := Some ch\<rparr>;
                w2 = w1\<lparr>fresh := fresh w1 + 2, liveStreams := liveStreams w1 \<union> {st}\<rparr>;
                ev2 = ev1 @ [GetUserMedia st] @ notifyStatus s ''Connecting to HQ...''
                      @ [LiveConnect ch userLocation]
            in if \<not> channelOpens env then (Inl ConnectionError, s2, w2, ev2)
               else (Inr (), s2\<lparr>currentSession := Some ch\<rparr>,
                     w2\<lparr>openChannels := openChannels w2 \<union> {ch}\<rparr>, ev2)))"

subsection \<open>handleOpen and the capture callback\<close>

definition handleOpen :: "service \<Rightarrow> browser \<Rightarrow> service \<times> browser \<times> event list" where
  "handleOpen s w =
     (case (inputAudioContext s, stream s) of
        (Some ic, Some st) \<Rightarrow>
          (let src = fresh w; pr = fresh w + 1
           in (s\<lparr>source := Some src, processor := Some pr\<rparr>,
               w\<lparr>fresh := fresh w + 2, wiredNodes := wiredNodes w \<union> {src, pr}\<rparr>,
               notifyStatus s ''Live''
               @ [CreateMediaStreamSource src ic st, CreateScriptProcessor pr ic]))
      | _ \<Rightarrow> (s, w, notifyStatus s ''Live''))"

text \<open>
  Root mean square of a frame. For a frame of length 0 the source computes NaN and this
  is 0; the processor is created with frames of 4096 samples.
\<close>

definition rms :: "real list \<Rightarrow> real" where
  "rms inputData = sqrt (sum_list (map (\<lambda>x. x * x) inputData) / real (length inputData))"

text \<open>
  The \<open>onaudioprocess\<close> callback. The chain \<open>float32ToInt16PCM\<close>, \<open>arrayBufferToBase64\<close>
  of the audio utilities is the parameter \<open>encodeFrame\<close>. The callback writes no field.
\<close>

definition onaudioprocess ::
  "(real list \<Rightarrow> string) \<Rightarrow> service \<Rightarrow> real list \<Rightarrow> service \<times> event list" where
  "onaudioprocess encodeFrame s inputData =
     (s, (if onAudioLevel s then [AudioLevel (rms inputData)] else [])
         @ (case currentSession s of
              Some ch \<Rightarrow> [SendRealtimeInput ch ''audio/pcm;rate=16000'' (encodeFrame inputData)]
            | None \<Rightarrow> []))"

subsection \<open>handleMessage\<close>

text \<open>
  An inbound message: the data of the first inline part, when there is one, and the
  function calls of the tool call, when there is one.
\<close>

record LiveServerMessage =
  inlineData :: "string option"
  toolCall :: "functionCall list option"

text \<open>
  One arrival: the message, the output context's \<open>currentTime\<close> when it is handled, the
  outcome of \<open>decodeAudioData\<close> on its audio (the duration of the decoded buffer, or
  \<open>None\<close> when decoding throws), and the reading of \<open>Date.now()\<close> in the iteration of
  the tool-call loop at each position.
\<close>

record arrival =
  message :: LiveServerMessage
  currentTime :: real
  decoded :: "real option"
  dateNow :: "nat \<Rightarrow> nat"

text \<open>
  The audio branch: the playhead is first raised to the output clock; a decoded buffer is
  started at the playhead, which then advances by its duration; a decode failure is
  caught and logged. \<open>base64ToUint8Array\<close>, called before the \<open>try\<close>, is taken to
  return for every string.
\<close>

definition handleAudio :: "service \<Rightarrow> arrival \<Rightarrow> service \<times> event list" where
  "handleAudio s a =
     (case (inlineData (message a), outputAudioContext s) of
        (Some base64Audio, Some oc) \<Rightarrow>
          (if base64Audio = [] then (s, [])
           else
             (let s1 = s\<lparr>nextStartTime := max (nextStartTime s) (currentTime a)\<rparr>
              in case decoded a of
                   Some duration \<Rightarrow>
                     (s1\<lparr>nextStartTime := nextStartTime s1 + duration\<rparr>,
                      [BufferSourceStart oc (nextStartTime s1) duration])
                 | None \<Rightarrow> (s1, [ConsoleError ''Error decoding audio''])))
      | _ \<Rightarrow> (s, []))"

text \<open>
  \<open>this.onReportSubmitted?.(args)\<close>: nothing when no listener is registered; otherwise the
  call, which returns or throws.
\<close>

definition callListener :: "service \<Rightarrow> jsobject option \<Rightarrow> event list \<times> completion" where
  "callListener s args =
     (case onReportSubmitted s of
        None \<Rightarrow> ([], Returns)
      | Some listener \<Rightarrow> ([ReportSubmitted args], listener args))"

text \<open>
  The loop over the function calls, from position \<open>i\<close>: the listener calls it makes, the
  responses it collects, and how it ends. The listener is called before the response is
  pushed and there is no \<open>try\<close> around the call: when it throws, the loop ends there.
\<close>

fun handleCalls ::
  "service \<Rightarrow> (nat \<Rightarrow> nat) \<Rightarrow> nat \<Rightarrow> functionCall list
     \<Rightarrow> event list \<times> functionResponse list \<times> completion" where
  "handleCalls s now i [] = ([], [], Returns)"
| "handleCalls s now i (fc # fcs) =
     (if fc_name fc = ''reportEmergency''
      then (case callListener s (fc_args fc) of
              (ev, Throws) \<Rightarrow> (ev, [], Throws)
            | (ev, Returns) \<Rightarrow>
                (let (evs, responses, c) = handleCalls s now (Suc i) fcs
                 in (ev @ evs,
                     \<lparr>resp_id = fc_id fc, resp_name = fc_name fc, resp_status = ''success'',
                      resp_ticketId = now i\<rparr> # responses,
                     c)))
      else handleCalls s now (Suc i) fcs)"

text \<open>
  The tool-call branch: its events and how it ends. When the loop throws, the send after
  it is not reached.
\<close>

definition runToolCall :: "service \<Rightarrow> arrival \<Rightarrow> event list \<times> completion" where
  "runToolCall s a =
     (case toolCall (message a) of
        None \<Rightarrow> ([], Returns)
      | Some functionCalls \<Rightarrow>
          (case handleCalls s (dateNow a) 0 functionCalls of
             (evs, responses, Throws) \<Rightarrow> (evs, Throws)
           | (evs, responses, Returns) \<Rightarrow>
               (evs @ (if responses \<noteq> []
                       then (case currentSession s of
                               Some ch \<Rightarrow> [SendToolResponse ch responses]
                             | None \<Rightarrow> [])
                       else []),
                Returns)))"

definition handleToolCall :: "service \<Rightarrow> arrival \<Rightarrow> event list" where
  "handleToolCall s a = fst (runToolCall s a)"

text \<open>
  \<open>handleMessage\<close>: the state it leaves and the events it makes. The audio branch does
  not throw; the message is rejected exactly when the tool-call branch throws, with the
  fields written and the events made up to there.
\<close>

definition handleMessage :: "service \<Rightarrow> arrival \<Rightarrow> service \<times> event list" where
  "handleMessage s a =
     (let (s1, ev1) = handleAudio s a in (s1, ev1 @ handleToolCall s1 a))"

definition handleMessageCompletion :: "service \<Rightarrow> arrival \<Rightarrow> completion" where
  "handleMessageCompletion s a = snd (runToolCall (fst (handleAudio s a)) a)"

text \<open>
  Messages handled one after the other, in arrival order: each call of the handler runs
  to its end before the next begins.
\<close>

fun handleMessages :: "service \<Rightarrow> arrival list \<Rightarrow> service \<times> event list" where
  "handleMessages s [] = (s, [])"
| "handleMessages s (a # as) =
     (let (s1, ev1) = handleMessage s a; (s2, ev2) = handleMessages s1 as
      in (s2, ev1 @ ev2))"

subsection \<open>stop and the channel callbacks\<close>

definition stop :: "service \<Rightarrow> browser \<Rightarrow> service \<times> browser \<times> event list" where
  "stop s w =
     (s\<lparr>processor := None, source := None, stream := None, inputAudioContext := None,
        outputAudioContext := None, currentSession := None\<rparr>,
      w\<lparr>wiredNodes := wiredNodes w - set_option (processor s) - set_option (source s),
        liveStreams := liveStreams w - set_option (stream s),
        openContexts :=
          openContexts w - set_option (inputAudioContext s) - set_option (outputAudioContext s)\<rparr>,
      (case processor s of Some p \<Rightarrow> [ProcessorDisconnect p, ClearOnAudioProcess p] | None \<Rightarrow> [])
      @ (case source s of Some x \<Rightarrow> [SourceDisconnect x] | None \<Rightarrow> [])
      @ (case stream s of Some st \<Rightarrow> [TrackStop st] | None \<Rightarrow> [])
      @ (case inputAudioContext s of Some c \<Rightarrow> [CloseContext c] | None \<Rightarrow> [])
      @ (case outputAudioContext s of Some c \<Rightarrow> [CloseContext c] | None \<Rightarrow> [])
      @ notifyStatus s ''Disconnected'')"

definition onclose :: "service \<Rightarrow> browser \<Rightarrow> service \<times> browser \<times> event list" where
  "onclose s w =
     (let (s1, w1, ev) = stop s w in (s1, w1, notifyStatus s ''Disconnected'' @ ev))"

definition onerror :: "service \<Rightarrow> browser \<Rightarrow> service \<times> browser \<times> event list" where
  "onerror s w = (s, w, ConsoleError ''Live API Error:'' # notifyStatus s ''Connection Error'')"

text \<open>\<open>stop()\<close> called \<open>n\<close> times in a row, with the events of all the calls.\<close>

fun stopTimes :: "nat \<Rightarrow> service \<Rightarrow> browser \<Rightarrow> service \<times> browser \<times> event list" where
  "stopTimes 0 s w = (s, w, [])"
| "stopTimes (Suc n) s w =
     (let (s1, w1, ev1) = stop s w; (s2, w2, ev2) = stopTimes n s1 w1
      in (s2, w2, ev1 @ ev2))"

subsection \<open>Reading a trace\<close>

fun isRelease :: "event \<Rightarrow> bool" where
  "isRelease (ProcessorDisconnect p) = True"
| "isRelease (ClearOnAudioProcess p) = True"
| "isRelease (SourceDisconnect x) = True"
| "isRelease (TrackStop st) = True"
| "isRelease (CloseContext c) = True"
| "isRelease _ = False"

fun startOf :: "event \<Rightarrow> (real \<times> real) list" where
  "startOf (BufferSourceStart c t d) = [(t, d)]"
| "startOf _ = []"

text \<open>The buffers started in a trace, each with its start time and its duration.\<close>

definition scheduled :: "event list \<Rightarrow> (real \<times> real) list" where
  "scheduled evs = concat (map startOf evs)"

fun reportOf :: "event \<Rightarrow> jsobject option list" where
  "reportOf (ReportSubmitted d) = [d]"
| "reportOf _ = []"

definition submitted :: "event list \<Rightarrow> jsobject option list" where
  "submitted evs = concat (map reportOf evs)"

fun toolResponseOf :: "event \<Rightarrow> (handle \<times> functionResponse list) list" where
  "toolResponseOf (SendToolResponse ch rs) = [(ch, rs)]"
| "toolResponseOf _ = []"

definition toolResponses :: "event list \<Rightarrow> (handle \<times> functionResponse list) list" where
  "toolResponses evs = concat (map toolResponseOf evs)"

fun realtimeInputOf :: "event \<Rightarrow> (handle \<times> string) list" where
  "realtimeInputOf (SendRealtimeInput ch mime d) = [(ch, d)]"
| "realtimeInputOf _ = []"

definition realtimeInputs :: "event list \<Rightarrow> (handle \<times> string) list" where
  "realtimeInputs evs = concat (map realtimeInputOf evs)"

definition releases :: "event list \<Rightarrow> event list" where
  "releases evs = filter isRelease evs"

text \<open>The requests of a tool call that the handler answers.\<close>

definition reportRequests :: "functionCall list \<Rightarrow> functionCall list" where
  "reportRequests fcs = filter (\<lambda>fc. fc_name fc = ''reportEmergency'') fcs"

text \<open>The listener call for this request throws.\<close>

definition listenerThrows :: "service \<Rightarrow> functionCall \<Rightarrow> bool" where
  "listenerThrows s fc = (snd (callListener s (fc_args fc)) = Throws)"

text \<open>The test \<open>if (base64Audio ...)\<close>: the message has inline data, and it is not empty.\<close>

definition carriesAudio :: "arrival \<Rightarrow> bool" where
  "carriesAudio a =
     (case inlineData (message a) of Some base64Audio \<Rightarrow> base64Audio \<noteq> [] | None \<Rightarrow> False)"

text \<open>
  An arrival whose audio decodes, to a buffer of a duration that is not negative (the
  duration of an audio buffer is its length over its sample rate).
\<close>

definition playable :: "arrival \<Rightarrow> bool" where
  "playable a = (carriesAudio a \<and> (case decoded a of Some d \<Rightarrow> 0 \<le> d | None \<Rightarrow> False))"

text \<open>An arrival whose audio, if it decodes, has a duration that is not negative.\<close>

definition nonnegDuration :: "arrival \<Rightarrow> bool" where
  "nonnegDuration a = (case decoded a of Some d \<Rightarrow> 0 \<le> d | None \<Rightarrow> True)"

definition stateAfter :: "service \<Rightarrow> arrival list \<Rightarrow> service" where
  "stateAfter s as = fst (handleMessages s as)"

definition traceOf :: "service \<Rightarrow> arrival list \<Rightarrow> event list" where
  "traceOf s as = snd (handleMessages s as)"

text \<open>The resources an instance references.\<close>

definition heldBy :: "service \<Rightarrow> handle set" where
  "heldBy s =
     set_option (inputAudioContext s) \<union> set_option (outputAudioContext s)
     \<union> set_option (stream s) \<union> set_option (processor s) \<union> set_option (source s)
     \<union> set_option (currentSession s)"

text \<open>
  Everything the browser holds open, and the invariant of the handle counter: every open
  object was taken below it.
\<close>

definition allocated :: "browser \<Rightarrow> handle set" where
  "allocated w = openContexts w \<union> liveStreams w \<union> wiredNodes w \<union> openChannels w"

definition wellFormed :: "browser \<Rightarrow> bool" where
  "wellFormed w = (\<forall>h \<in> allocated w. h < fresh w)"

section \<open>The PCM codec\<close>

text \<open>
  The audio utilities (\<open>float32ToInt16PCM\<close>, \<open>decodeAudioData\<close>) are not among the
  sources; the codec is taken from its specification. Samples are exact real numbers: the
  rounding of 32-bit floats is not part of the model.
\<close>

type_synonym byte = "8 word"

text \<open>
  Modelled from the spec: the rounding of the encoder (audio utilities, missing), which
  is to round consistently, by truncation or to the nearest integer.
\<close>

datatype rounding = Truncate | Nearest

text \<open>Modelled from the spec: truncation towards zero (audio utilities, missing).\<close>

definition trunc :: "real \<Rightarrow> int" where
  "trunc y = (if y < 0 then \<lceil>y\<rceil> else \<lfloor>y\<rfloor>)"

text \<open>
  Modelled from the spec: the encoder's map of one sample (audio utilities, missing):
  multiply by 32767, round, clamp to the range of a 16-bit signed integer.
\<close>

definition toInt16 :: "rounding \<Rightarrow> real \<Rightarrow> int" where
  "toInt16 mode x =
     max (- 32768) (min 32767
       (case mode of Truncate \<Rightarrow> trunc (x * 32767) | Nearest \<Rightarrow> round (x * 32767)))"

text \<open>
  Modelled from the spec: the two bytes of one sample, little-endian (audio utilities,
  missing).
\<close>

definition encodeSample :: "rounding \<Rightarrow> real \<Rightarrow> byte list" where
  "encodeSample mode x =
     (let w = (word_of_int (toInt16 mode x) :: 16 word) in [ucast w, ucast (drop_bit 8 w)])"

text \<open>
  Modelled from the spec: \<open>encode\<close>, the samples' bytes concatenated (audio utilities,
  missing).
\<close>

definition encode :: "rounding \<Rightarrow> real list \<Rightarrow> byte list" where
  "encode mode samples = concat (map (encodeSample mode) samples)"

text \<open>
  Modelled from the spec: the inverse map of one sample, from its low and high byte
  (audio utilities, missing).
\<close>

definition decodeSample :: "byte \<Rightarrow> byte \<Rightarrow> real" where
  "decodeSample lo hi = real_of_int (sint (word_cat hi lo :: 16 word)) / 32767"

text \<open>
  Modelled from the spec: the samples of a byte sequence, pair by pair (audio utilities,
  missing).
\<close>

fun decodeSamples :: "byte list \<Rightarrow> real list" where
  "decodeSamples (lo # hi # rest) = decodeSample lo hi # decodeSamples rest"
| "decodeSamples _ = []"

text \<open>
  Modelled from the spec: the playback buffer, with its samples in stream order (audio
  utilities, missing).
\<close>

record PlaybackBuffer =
  sampleRate :: nat
  numberOfChannels :: nat
  samples :: "real list"

text \<open>
  Modelled from the spec: \<open>decode\<close> (audio utilities, missing), which fails with a decode
  error when the length is not a multiple of the sample frame size, two bytes for each
  channel.
\<close>

definition decode :: "byte list \<Rightarrow> nat \<Rightarrow> nat \<Rightarrow> error + PlaybackBuffer" where
  "decode bytes rate channelCount =
     (if channelCount = 0 \<or> length bytes mod (2 * channelCount) \<noteq> 0 then Inl DecodeError
      else Inr \<lparr>sampleRate = rate, numberOfChannels = channelCount,
                samples = decodeSamples bytes\<rparr>)"

section \<open>Example inputs\<close>


definition fireDraft :: jsobject where
  "fireDraft =
     [(''emergencyType'', JStr ''Fire''), (''description'', JStr ''Apartment fire''),
      (''peopleCount'', JNum (Fin 3)), (''criticalNeeds'', JStr ''Fire truck''),
      (''latitude'', JNum (Fin 34.05)), (''longitude'', JNum (Fin (- 118.24)))]"



text \<open>
  A service with the three listeners of the application registered; the state and the
  browser after \<open>connect\<close> and \<open>handleOpen\<close> from there; and the states reached from
  it by a second \<open>connect\<close>, by \<open>stop\<close>, and from a new service when the microphone
  is refused.
\<close>

definition grantedEnv :: connectEnv where
  "grantedEnv =
     \<lparr>inputSuspended = False, outputSuspended = False, micGranted = True, channelOpens = True\<rparr>"

definition deniedEnv :: connectEnv where
  "deniedEnv =
     \<lparr>inputSuspended = False, outputSuspended = False, micGranted = False, channelOpens = True\<rparr>"

definition listeningService :: service where
  "listeningService =
     newService\<lparr>onReportSubmitted := Some appListener, onAudioLevel := True,
       onStatusChange := True\<rparr>"

definition liveService :: service where
  "liveService =
     \<lparr>inputAudioContext = Some 0, outputAudioContext = Some 1, stream = Some 2,
      processor = Some 5, source = Some 4, nextStartTime = 0, sessionPromise = Some 3,
      currentSession = Some 3, onReportSubmitted = Some appListener, onAudioLevel = True,
      onStatusChange = True\<rparr>"

definition liveBrowser :: browser where
  "liveBrowser =
     \<lparr>fresh = 6, openContexts = {0, 1}, liveStreams = {2}, wiredNodes = {4, 5},
      openChannels = {3}\<rparr>"

definition secondConnect :: "(error + unit) \<times> service \<times> browser \<times> event list" where
  "secondConnect = connect grantedEnv None liveService liveBrowser"

definition deniedConnect :: "(error + unit) \<times> service \<times> browser \<times> event list" where
  "deniedConnect = connect deniedEnv None listeningService newBrowser"

definition stoppedService :: service where
  "stoppedService = fst (stop liveService liveBrowser)"

definition fireCall :: functionCall where
  "fireCall = \<lparr>fc_id = ''call-1'', fc_name = ''reportEmergency'', fc_args = Some fireDraft\<rparr>"

definition otherCall :: functionCall where
  "otherCall = \<lparr>fc_id = ''call-2'', fc_name = ''lookupWeather'', fc_args = Some []\<rparr>"

definition bareCall :: functionCall where
  "bareCall = \<lparr>fc_id = ''call-3'', fc_name = ''reportEmergency'', fc_args = None\<rparr>"

definition fireArrival :: arrival where
  "fireArrival =
     \<lparr>message = \<lparr>inlineData = None, toolCall = Some [fireCall, otherCall]\<rparr>,
      currentTime = 0, decoded = None, dateNow = (\<lambda>i. 1000)\<rparr>"

definition bareArrival :: arrival where
  "bareArrival =
     \<lparr>message = \<lparr>inlineData = None, toolCall = Some [bareCall, fireCall]\<rparr>,
      currentTime = 0, decoded = None, dateNow = (\<lambda>i. 1000)\<rparr>"

definition chunk :: "real \<Rightarrow> real option \<Rightarrow> arrival" where
  "chunk t d =
     \<lparr>message = \<lparr>inlineData = Some ''UklGRg=='', toolCall = None\<rparr>,
      currentTime = t, decoded = d, dateNow = (\<lambda>i. 0)\<rparr>"

definition exampleChunks :: "arrival list" where
  "exampleChunks = [chunk 0 (Some 1), chunk (1 / 2) (Some 2), chunk 5 (Some 1)]"

section \<open>Lemmas on the message handler\<close>

lemma releases_append: "releases (xs @ ys) = releases xs @ releases ys"
  by (simp add: releases_def)

lemma scheduled_append: "scheduled (xs @ ys) = scheduled xs @ scheduled ys"
  by (simp add: scheduled_def)

lemma appListener_handler: "snd (onReportSubmittedCall rt now a args) = appListener args"
  by (simp add: onReportSubmittedCall_def appListener_def split: option.splits)

lemma callListener_events:
  "fst (callListener s args) = (if onReportSubmitted s = None then [] else [ReportSubmitted args])"
  by (simp add: callListener_def split: option.splits)

lemma handleCalls_reports:
  "e \<in> set (fst (handleCalls s now i fcs)) \<Longrightarrow> \<exists>d. e = ReportSubmitted d"
proof (induction fcs arbitrary: i)
  case Nil
  then show ?case by simp
next
  case (Cons fc fcs)
  obtain ev c where call: "callListener s (fc_args fc) = (ev, c)"
    by (cases "callListener s (fc_args fc)")
  have ev: "ev = (if onReportSubmitted s = None then [] else [ReportSubmitted (fc_args fc)])"
    using callListener_events [of s "fc_args fc"] by (simp add: call)
  show ?case
  proof (cases "fc_name fc = ''reportEmergency''")
    case False
    then show ?thesis using Cons by simp
  next
    case True
    show ?thesis
    proof (cases c)
      case Throws
      then show ?thesis using Cons.prems True call ev by (auto split: if_splits)
    next
      case Returns
      then show ?thesis
        using Cons.prems True call ev Cons.IH [of "Suc i"]
        by (auto simp: case_prod_unfold Let_def split: if_splits)
    qed
  qed
qed

lemma runToolCall_unfold:
  "runToolCall s a =
     (case toolCall (message a) of
        None \<Rightarrow> ([], Returns)
      | Some fcs \<Rightarrow>
          if snd (snd (handleCalls s (dateNow a) 0 fcs)) = Throws
          then (fst (handleCalls s (dateNow a) 0 fcs), Throws)
          else (fst (handleCalls s (dateNow a) 0 fcs)
                @ (if fst (snd (handleCalls s (dateNow a) 0 fcs)) \<noteq> []
                   then (case currentSession s of
                           Some ch \<Rightarrow>
                             [SendToolResponse ch (fst (snd (handleCalls s (dateNow a) 0 fcs)))]
                         | None \<Rightarrow> [])
                   else []),
                Returns))"
proof (cases "toolCall (message a)")
  case None
  then show ?thesis by (simp add: runToolCall_def)
next
  case (Some fcs)
  obtain evs rs c where run: "handleCalls s (dateNow a) 0 fcs = (evs, rs, c)"
    by (cases "handleCalls s (dateNow a) 0 fcs")
  show ?thesis
    by (cases c; cases "currentSession s") (simp_all add: runToolCall_def Some run)
qed

lemma runToolCall_events:
  assumes "e \<in> set (handleToolCall s a)"
  shows "(\<exists>d. e = ReportSubmitted d) \<or> (\<exists>ch rs. e = SendToolResponse ch rs)"
proof (cases "toolCall (message a)")
  case None
  then show ?thesis using assms by (simp add: handleToolCall_def runToolCall_unfold)
next
  case (Some fcs)
  let ?run = "handleCalls s (dateNow a) 0 fcs"
  have "set (handleToolCall s a) \<subseteq> set (fst ?run) \<union> range (\<lambda>(ch, rs). SendToolResponse ch rs)"
  proof (cases "snd (snd ?run) = Throws")
    case True
    then show ?thesis by (simp add: handleToolCall_def runToolCall_unfold Some)
  next
    case False
    then show ?thesis
      by (cases "currentSession s"; cases "fst (snd ?run) = []")
        (auto simp: handleToolCall_def runToolCall_unfold Some)
  qed
  then have "e \<in> set (fst ?run) \<or> (\<exists>ch rs. e = SendToolResponse ch rs)"
    using assms by auto
  then show ?thesis
    using handleCalls_reports [of e s "dateNow a" 0 fcs] by auto
qed

lemma handleToolCall_scheduled: "scheduled (handleToolCall s a) = []"
  by (auto simp: scheduled_def dest!: runToolCall_events)

lemma handleToolCall_release: "releases (handleToolCall s a) = []"
  by (auto simp: releases_def filter_empty_conv dest!: runToolCall_events)

lemma handleAudio_fields:
  "fst (handleAudio s a) = s\<lparr>nextStartTime := nextStartTime (fst (handleAudio s a))\<rparr>"
  by (simp add: handleAudio_def Let_def split: option.splits)

lemma handleMessage_fst: "fst (handleMessage s a) = fst (handleAudio s a)"
  by (simp add: handleMessage_def split: prod.splits)

lemma handleMessage_scheduled:
  "scheduled (snd (handleMessage s a)) = scheduled (snd (handleAudio s a))"
  by (simp add: handleMessage_def scheduled_append handleToolCall_scheduled split: prod.splits)

lemma handleAudio_success:
  assumes "outputAudioContext s \<noteq> None" "carriesAudio a" "decoded a = Some d"
  shows "nextStartTime (fst (handleAudio s a)) = max (nextStartTime s) (currentTime a) + d"
    and "scheduled (snd (handleAudio s a)) = [(max (nextStartTime s) (currentTime a), d)]"
  using assms
  by (auto simp: handleAudio_def carriesAudio_def scheduled_def Let_def split: option.splits)

lemma handleAudio_mono:
  assumes "\<forall>d. decoded a = Some d \<longrightarrow> 0 \<le> d"
  shows "nextStartTime s \<le> nextStartTime (fst (handleAudio s a))"
    and "\<forall>(t, d) \<in> set (scheduled (snd (handleAudio s a))).
           t + d \<le> nextStartTime (fst (handleAudio s a))"
  using assms
  by (auto simp: handleAudio_def scheduled_def Let_def split: option.splits)

lemma handleMessage_context:
  "outputAudioContext (fst (handleMessage s a)) = outputAudioContext s"
  by (subst handleMessage_fst, subst handleAudio_fields) simp

lemma handleMessages_append:
  "handleMessages s (xs @ ys) =
     (stateAfter (stateAfter s xs) ys, traceOf s xs @ traceOf (stateAfter s xs) ys)"
  by (induction xs arbitrary: s)
    (auto simp: stateAfter_def traceOf_def Let_def split: prod.splits)

lemma stateAfter_Nil: "stateAfter s [] = s"
  by (simp add: stateAfter_def)

lemma stateAfter_Cons: "stateAfter s (a # as) = stateAfter (fst (handleMessage s a)) as"
  by (simp add: stateAfter_def Let_def split: prod.splits)

lemma traceOf_Cons:
  "traceOf s (a # as) = snd (handleMessage s a) @ traceOf (fst (handleMessage s a)) as"
  by (simp add: traceOf_def Let_def split: prod.splits)

lemma stateAfter_append: "stateAfter s (xs @ ys) = stateAfter (stateAfter s xs) ys"
  by (simp add: handleMessages_append stateAfter_def [of s "xs @ ys"])

lemma traceOf_append: "traceOf s (xs @ ys) = traceOf s xs @ traceOf (stateAfter s xs) ys"
  by (simp add: handleMessages_append traceOf_def [of s "xs @ ys"])

lemma stateAfter_context: "outputAudioContext (stateAfter s as) = outputAudioContext s"
  by (induction as arbitrary: s) (simp_all add: stateAfter_Nil stateAfter_Cons handleMessage_context)

lemma scheduled_length:
  assumes "outputAudioContext s \<noteq> None" "\<forall>a \<in> set as. playable a"
  shows "length (scheduled (traceOf s as)) = length as"
  using assms
proof (induction as arbitrary: s)
  case Nil
  then show ?case by (simp add: traceOf_def scheduled_def)
next
  case (Cons a as)
  from Cons.prems obtain d where d: "carriesAudio a" "decoded a = Some d"
    by (auto simp: playable_def split: option.splits)
  have "length (scheduled (traceOf (fst (handleMessage s a)) as)) = length as"
    using Cons.prems by (intro Cons.IH) (simp_all add: handleMessage_context)
  then show ?case
    using handleAudio_success(2) [OF Cons.prems(1) d]
    by (simp add: traceOf_Cons scheduled_append handleMessage_scheduled)
qed

lemma scheduled_nth:
  assumes ctx: "outputAudioContext s \<noteq> None" and ok: "\<forall>a \<in> set as. playable a"
    and i: "i < length as"
  shows "scheduled (traceOf s as) ! i =
           (max (nextStartTime (stateAfter s (take i as))) (currentTime (as ! i)),
            the (decoded (as ! i)))"
proof -
  let ?s = "stateAfter s (take i as)"
  have split: "as = take i as @ as ! i # drop (Suc i) as"
    using i by (simp add: id_take_nth_drop)
  have "playable (as ! i)" using ok i by simp
  then obtain d where d: "carriesAudio (as ! i)" "decoded (as ! i) = Some d"
    by (auto simp: playable_def split: option.splits)
  have ctx': "outputAudioContext ?s \<noteq> None"
    using ctx by (simp add: stateAfter_context)
  have len: "length (scheduled (traceOf s (take i as))) = i"
    using scheduled_length [OF ctx, of "take i as"] ok i
    by (auto dest: in_set_takeD)
  have "traceOf s as =
      traceOf s (take i as) @ snd (handleMessage ?s (as ! i))
        @ traceOf (fst (handleMessage ?s (as ! i))) (drop (Suc i) as)"
    by (subst split) (simp add: traceOf_append traceOf_Cons)
  then have "scheduled (traceOf s as) ! i = hd (scheduled (snd (handleMessage ?s (as ! i))))"
    using len handleAudio_success(2) [OF ctx' d]
    by (simp add: scheduled_append handleMessage_scheduled nth_append)
  then show ?thesis
    using handleAudio_success(2) [OF ctx' d] d by (simp add: handleMessage_scheduled)
qed

lemma stateAfter_take_Suc:
  assumes "i < length as"
  shows "stateAfter s (take (Suc i) as) = fst (handleMessage (stateAfter s (take i as)) (as ! i))"
  using assms
  by (simp add: take_Suc_conv_app_nth stateAfter_append stateAfter_Cons stateAfter_Nil)

lemma playhead_after:
  assumes ctx: "outputAudioContext s \<noteq> None" and ok: "\<forall>a \<in> set as. playable a"
    and i: "i < length as"
  shows "nextStartTime (stateAfter s (take (Suc i) as)) =
           max (nextStartTime (stateAfter s (take i as))) (currentTime (as ! i))
             + the (decoded (as ! i))"
proof -
  have "playable (as ! i)" using ok i by simp
  then obtain d where d: "carriesAudio (as ! i)" "decoded (as ! i) = Some d"
    by (auto simp: playable_def split: option.splits)
  have ctx': "outputAudioContext (stateAfter s (take i as)) \<noteq> None"
    using ctx by (simp add: stateAfter_context)
  show ?thesis
    using handleAudio_success(1) [OF ctx' d] d
    by (simp add: stateAfter_take_Suc [OF i] handleMessage_fst)
qed

lemma handleMessage_mono:
  assumes "nonnegDuration a"
  shows "nextStartTime s \<le> nextStartTime (fst (handleMessage s a))"
    and "\<forall>(t, d) \<in> set (scheduled (snd (handleMessage s a))).
           t + d \<le> nextStartTime (fst (handleMessage s a))"
  using assms handleAudio_mono [of a s]
  by (simp_all add: handleMessage_fst handleMessage_scheduled nonnegDuration_def
      split: option.splits)

lemma stateAfter_mono:
  assumes "\<forall>a \<in> set as. nonnegDuration a"
  shows "nextStartTime s \<le> nextStartTime (stateAfter s as)"
  using assms
proof (induction as arbitrary: s)
  case Nil
  then show ?case by (simp add: stateAfter_Nil)
next
  case (Cons a as)
  have "nextStartTime s \<le> nextStartTime (fst (handleMessage s a))"
    using Cons.prems by (simp add: handleMessage_mono(1))
  also have "\<dots> \<le> nextStartTime (stateAfter (fst (handleMessage s a)) as)"
    using Cons.prems by (intro Cons.IH) simp
  finally show ?case by (simp add: stateAfter_Cons)
qed

lemma scheduled_ends:
  assumes "\<forall>a \<in> set as. nonnegDuration a"
    and "(t, d) \<in> set (scheduled (traceOf s as))"
  shows "t + d \<le> nextStartTime (stateAfter s as)"
  using assms
proof (induction as arbitrary: s)
  case Nil
  then show ?case by (simp add: traceOf_def scheduled_def)
next
  case (Cons a as)
  let ?s1 = "fst (handleMessage s a)"
  from Cons.prems(2) consider
    (now) "(t, d) \<in> set (scheduled (snd (handleMessage s a)))"
    | (later) "(t, d) \<in> set (scheduled (traceOf ?s1 as))"
    by (auto simp: traceOf_Cons scheduled_append)
  then show ?case
  proof cases
    case now
    then have "t + d \<le> nextStartTime ?s1"
      using handleMessage_mono(2) [of a s] Cons.prems(1) by auto
    also have "\<dots> \<le> nextStartTime (stateAfter ?s1 as)"
      using Cons.prems(1) by (intro stateAfter_mono) simp
    finally show ?thesis by (simp add: stateAfter_Cons)
  next
    case later
    then show ?thesis
      using Cons.IH [of ?s1] Cons.prems(1) by (simp add: stateAfter_Cons)
  qed
qed

lemma handleAudio_failure:
  assumes "outputAudioContext s \<noteq> None" "carriesAudio a" "decoded a = None"
  shows "handleAudio s a =
           (s\<lparr>nextStartTime := max (nextStartTime s) (currentTime a)\<rparr>,
            [ConsoleError ''Error decoding audio''])"
  using assms
  by (auto simp: handleAudio_def carriesAudio_def Let_def split: option.splits)

lemma submitted_append: "submitted (xs @ ys) = submitted xs @ submitted ys"
  by (simp add: submitted_def)

lemma toolResponses_append: "toolResponses (xs @ ys) = toolResponses xs @ toolResponses ys"
  by (simp add: toolResponses_def)

lemma handleAudio_no_calls:
  "submitted (snd (handleAudio s a)) = []" "toolResponses (snd (handleAudio s a)) = []"
  by (simp_all add: handleAudio_def submitted_def toolResponses_def Let_def split: option.splits)

lemma callListener_playhead:
  "callListener (s\<lparr>nextStartTime := t\<rparr>) args = callListener s args"
  by (simp add: callListener_def)

lemma handleCalls_playhead:
  "handleCalls (s\<lparr>nextStartTime := t\<rparr>) now i fcs = handleCalls s now i fcs"
  by (induction fcs arbitrary: i) (simp_all add: callListener_playhead)

lemma runToolCall_playhead:
  "runToolCall (s\<lparr>nextStartTime := t\<rparr>) a = runToolCall s a"
  by (simp add: runToolCall_unfold handleCalls_playhead split: option.splits)

lemma handleToolCall_playhead:
  "handleToolCall (s\<lparr>nextStartTime := t\<rparr>) a = handleToolCall s a"
  by (simp add: handleToolCall_def runToolCall_playhead)

lemma handleMessage_events:
  "snd (handleMessage s a) = snd (handleAudio s a) @ handleToolCall s a"
proof -
  have "handleToolCall (fst (handleAudio s a)) a = handleToolCall s a"
    by (subst handleAudio_fields) (rule handleToolCall_playhead)
  then show ?thesis
    by (simp add: handleMessage_def case_prod_unfold Let_def)
qed

lemma handleMessageCompletion_eq:
  "handleMessageCompletion s a = snd (runToolCall s a)"
proof -
  have "runToolCall (fst (handleAudio s a)) a = runToolCall s a"
    by (subst handleAudio_fields) (rule runToolCall_playhead)
  then show ?thesis
    by (simp add: handleMessageCompletion_def)
qed

lemma callListener_returns:
  assumes "\<not> listenerThrows s fc"
  shows "callListener s (fc_args fc) =
     ((if onReportSubmitted s = None then [] else [ReportSubmitted (fc_args fc)]), Returns)"
proof -
  have "snd (callListener s (fc_args fc)) = Returns"
    using assms by (cases "snd (callListener s (fc_args fc))") (simp_all add: listenerThrows_def)
  then show ?thesis
    using callListener_events [of s "fc_args fc"]
    by (cases "callListener s (fc_args fc)") simp
qed

lemma handleCalls_returns:
  assumes "\<forall>fc \<in> set (reportRequests fcs). \<not> listenerThrows s fc"
  shows "fst (handleCalls s now i fcs) =
           (if onReportSubmitted s = None then []
            else map (\<lambda>fc. ReportSubmitted (fc_args fc)) (reportRequests fcs)) \<and>
         snd (snd (handleCalls s now i fcs)) = Returns \<and>
         map resp_id (fst (snd (handleCalls s now i fcs))) = map fc_id (reportRequests fcs) \<and>
         map resp_status (fst (snd (handleCalls s now i fcs))) =
           map (\<lambda>fc. ''success'') (reportRequests fcs)"
  using assms
proof (induction fcs arbitrary: i)
  case Nil
  then show ?case by (simp add: reportRequests_def)
next
  case (Cons fc fcs)
  have rest: "\<forall>x \<in> set (reportRequests fcs). \<not> listenerThrows s x"
    using Cons.prems by (simp add: reportRequests_def)
  note IH = Cons.IH [OF rest, of "Suc i"]
  show ?case
  proof (cases "fc_name fc = ''reportEmergency''")
    case False
    then show ?thesis using IH by (simp add: reportRequests_def)
  next
    case True
    then have "\<not> listenerThrows s fc"
      using Cons.prems by (simp add: reportRequests_def)
    note call = callListener_returns [OF this]
    show ?thesis
      using IH True by (simp add: call case_prod_unfold Let_def reportRequests_def)
  qed
qed

lemma submitted_reports: "submitted (map (\<lambda>fc. ReportSubmitted (fc_args fc)) fcs) = map fc_args fcs"
  by (induction fcs) (simp_all add: submitted_def)

lemma toolResponses_reports: "toolResponses (map (\<lambda>fc. ReportSubmitted (fc_args fc)) fcs) = []"
  by (induction fcs) (simp_all add: toolResponses_def)

section \<open>The playhead\<close>

text \<open>
  C2: for every sequence of inbound audio buffers that decode (to durations that are not
  negative), handled in arrival order by an instance with an output context, every buffer
  is scheduled; the start time of each buffer is at least the start time of the buffer
  before it plus that buffer's duration, and is exactly that when the playhead is at or
  ahead of the output clock as the buffer is handled; and the playhead never decreases
  from one message to the next.
\<close>

theorem playhead_contiguous:
  assumes ctx: "outputAudioContext s \<noteq> None" and ok: "\<forall>a \<in> set as. playable a"
  shows "length (scheduled (traceOf s as)) = length as \<and>
    (\<forall>i. Suc i < length as \<longrightarrow>
       (let (t0, d0) = scheduled (traceOf s as) ! i;
            (t1, d1) = scheduled (traceOf s as) ! Suc i;
            before = stateAfter s (take (Suc i) as)
        in d0 = the (decoded (as ! i)) \<and> d1 = the (decoded (as ! Suc i)) \<and>
           t0 + d0 \<le> t1 \<and>
           (currentTime (as ! Suc i) \<le> nextStartTime before \<longrightarrow> t1 = t0 + d0))) \<and>
    (\<forall>i < length as.
       nextStartTime (stateAfter s (take i as)) \<le> nextStartTime (stateAfter s (take (Suc i) as)))"
proof (intro conjI allI impI)
  show "length (scheduled (traceOf s as)) = length as"
    by (rule scheduled_length [OF ctx ok])
next
  fix i assume i: "Suc i < length as"
  then have i0: "i < length as" by simp
  show "let (t0, d0) = scheduled (traceOf s as) ! i;
            (t1, d1) = scheduled (traceOf s as) ! Suc i;
            before = stateAfter s (take (Suc i) as)
        in d0 = the (decoded (as ! i)) \<and> d1 = the (decoded (as ! Suc i)) \<and>
           t0 + d0 \<le> t1 \<and>
           (currentTime (as ! Suc i) \<le> nextStartTime before \<longrightarrow> t1 = t0 + d0)"
    by (simp add: scheduled_nth [OF ctx ok i] scheduled_nth [OF ctx ok i0]
        playhead_after [OF ctx ok i0] Let_def)
next
  fix i assume i: "i < length as"
  have "playable (as ! i)" using ok i by simp
  then have "0 \<le> the (decoded (as ! i))"
    by (auto simp: playable_def split: option.splits)
  then show "nextStartTime (stateAfter s (take i as))
      \<le> nextStartTime (stateAfter s (take (Suc i) as))"
    by (simp add: playhead_after [OF ctx ok i])
qed

theorem playhead_contiguous_witness:
  "outputAudioContext liveService \<noteq> None \<and>
   playable (chunk 0 (Some 1)) \<and> playable (chunk (1 / 2) (Some 2)) \<and>
   playable (chunk 5 (Some 1)) \<and>
   length (scheduled (traceOf liveService exampleChunks)) = 3 \<and>
   scheduled (traceOf liveService exampleChunks) = [(0, 1), (1, 2), (5, 1)]"
proof -
  have ctx: "outputAudioContext liveService \<noteq> None"
    by (simp add: liveService_def)
  have each: "playable (chunk 0 (Some 1))" "playable (chunk (1 / 2) (Some 2))"
    "playable (chunk 5 (Some 1))"
    by (simp_all add: playable_def carriesAudio_def chunk_def)
  then have ok: "\<forall>a \<in> set exampleChunks. playable a"
    by (simp add: exampleChunks_def)
  from playhead_contiguous [OF ctx ok]
  have len: "length (scheduled (traceOf liveService exampleChunks)) = 3"
    by (simp add: exampleChunks_def)
  have starts: "scheduled (traceOf liveService exampleChunks) = [(0, 1), (1, 2), (5, 1)]"
    by (simp add: traceOf_def exampleChunks_def handleMessage_def handleAudio_def
        handleToolCall_def runToolCall_def chunk_def liveService_def scheduled_def Let_def)
  show ?thesis
    using ctx each len starts by (intro conjI)
qed

section \<open>A chunk that fails to decode\<close>

text \<open>
  C6: when the audio of an inbound message fails to decode, \<open>handleMessage\<close> catches the
  failure. It logs it and goes on to the tool calls of the same message; no field of the
  instance changes except the playhead, which is raised to the output clock; nothing is
  released and nothing is scheduled. Whatever was handled before and whatever is handled
  after the failing message (with durations that are not negative), a later chunk that
  decodes is started no earlier than the output clock at that moment and no earlier than
  the end of any buffer scheduled before it.
\<close>

theorem decode_failure_isolated:
  assumes ctx: "outputAudioContext s0 \<noteq> None"
    and a: "carriesAudio a" "decoded a = None"
    and b: "playable b"
    and dur: "\<forall>x \<in> set (before @ after). nonnegDuration x"
  shows "(let s = stateAfter s0 before;
              (s1, ev1) = handleMessage s a;
              (s2, ev2) = handleMessages s0 (before @ a # after);
              (s3, ev3) = handleMessage s2 b
          in s1 = s\<lparr>nextStartTime := max (nextStartTime s) (currentTime a)\<rparr> \<and>
             ev1 = ConsoleError ''Error decoding audio'' # handleToolCall s1 a \<and>
             releases ev1 = [] \<and> scheduled ev1 = [] \<and>
             scheduled ev3 = [(max (nextStartTime s2) (currentTime b), the (decoded b))] \<and>
             currentTime b \<le> max (nextStartTime s2) (currentTime b) \<and>
             (\<forall>(t0, d0) \<in> set (scheduled ev2).
                t0 + d0 \<le> max (nextStartTime s2) (currentTime b)))"
proof -
  let ?s = "stateAfter s0 before"
  let ?all = "before @ a # after"
  have ctx1: "outputAudioContext ?s \<noteq> None"
    using ctx by (simp add: stateAfter_context)
  have ctx2: "outputAudioContext (stateAfter s0 ?all) \<noteq> None"
    using ctx by (simp add: stateAfter_context)
  have fail: "handleMessage ?s a =
      (?s\<lparr>nextStartTime := max (nextStartTime ?s) (currentTime a)\<rparr>,
       ConsoleError ''Error decoding audio''
         # handleToolCall (?s\<lparr>nextStartTime := max (nextStartTime ?s) (currentTime a)\<rparr>) a)"
    by (simp add: handleMessage_def handleAudio_failure [OF ctx1 a])
  have quiet: "releases (snd (handleMessage ?s a)) = []" "scheduled (snd (handleMessage ?s a)) = []"
    by (simp_all add: fail releases_def scheduled_def handleToolCall_release [unfolded releases_def]
        handleToolCall_scheduled [unfolded scheduled_def])
  from b obtain d where d: "carriesAudio b" "decoded b = Some d"
    by (auto simp: playable_def split: option.splits)
  have next_start: "scheduled (snd (handleMessage (stateAfter s0 ?all) b)) =
      [(max (nextStartTime (stateAfter s0 ?all)) (currentTime b), the (decoded b))]"
    using handleAudio_success(2) [OF ctx2 d] d by (simp add: handleMessage_scheduled)
  have "nonnegDuration a" using a by (simp add: nonnegDuration_def)
  then have all: "\<forall>x \<in> set ?all. nonnegDuration x" using dur by auto
  have ends: "\<forall>(t0, d0) \<in> set (scheduled (traceOf s0 ?all)).
      t0 + d0 \<le> max (nextStartTime (stateAfter s0 ?all)) (currentTime b)"
    using scheduled_ends [OF all, of _ _ s0] by fastforce
  show ?thesis
    using fail quiet next_start ends
    by (simp add: Let_def case_prod_unfold stateAfter_def [symmetric] traceOf_def [symmetric])
qed

theorem decode_failure_isolated_witness:
  "outputAudioContext liveService \<noteq> None \<and>
   carriesAudio (chunk (1 / 2) None) \<and> decoded (chunk (1 / 2) None) = None \<and>
   playable (chunk (3 / 4) (Some 2)) \<and> nonnegDuration (chunk 0 (Some 1)) \<and>
   releases (snd (handleMessage (stateAfter liveService [chunk 0 (Some 1)])
      (chunk (1 / 2) None))) = [] \<and>
   stateAfter liveService [chunk 0 (Some 1), chunk (1 / 2) None] =
     liveService\<lparr>nextStartTime := 1\<rparr> \<and>
   scheduled (snd (handleMessage
      (stateAfter liveService [chunk 0 (Some 1), chunk (1 / 2) None]) (chunk (3 / 4) (Some 2)))) =
     [(1, 2)]"
proof -
  have ctx: "outputAudioContext liveService \<noteq> None"
    by (simp add: liveService_def)
  have a: "carriesAudio (chunk (1 / 2) None)" "decoded (chunk (1 / 2) None) = None"
    by (simp_all add: carriesAudio_def chunk_def)
  have b: "playable (chunk (3 / 4) (Some 2))"
    by (simp add: playable_def carriesAudio_def chunk_def)
  have c: "nonnegDuration (chunk 0 (Some 1))"
    by (simp add: nonnegDuration_def chunk_def)
  then have dur: "\<forall>x \<in> set ([chunk 0 (Some 1)] @ []). nonnegDuration x"
    by simp
  from decode_failure_isolated [OF ctx a b dur]
  have quiet: "releases (snd (handleMessage (stateAfter liveService [chunk 0 (Some 1)])
      (chunk (1 / 2) None))) = []"
    unfolding Let_def case_prod_unfold by blast
  have after: "stateAfter liveService [chunk 0 (Some 1), chunk (1 / 2) None]
      = liveService\<lparr>nextStartTime := 1\<rparr>"
    by (simp add: stateAfter_def handleMessage_def handleAudio_def handleToolCall_def runToolCall_def chunk_def
        liveService_def Let_def)
  have later: "scheduled (snd (handleMessage (liveService\<lparr>nextStartTime := 1\<rparr>)
      (chunk (3 / 4) (Some 2)))) = [(1, 2)]"
    by (simp add: handleMessage_def handleAudio_def handleToolCall_def runToolCall_def chunk_def
        liveService_def scheduled_def Let_def)
  show ?thesis
    using ctx a b c quiet after later by simp
qed

section \<open>Tool calls\<close>

text \<open>
  When the listener throws at a request, the message is rejected there: the requests
  before it have had their call, no later request gets one, and no response is sent.
\<close>

lemma listener_throw_rejects:
  assumes calls: "toolCall (message a) = Some (before @ fc # after)"
    and name: "fc_name fc = ''reportEmergency''"
    and throws: "listenerThrows s fc"
    and earlier: "\<forall>x \<in> set (reportRequests before). \<not> listenerThrows s x"
  shows "handleMessageCompletion s a = Throws \<and>
         submitted (snd (handleMessage s a)) = map fc_args (reportRequests before @ [fc]) \<and>
         toolResponses (snd (handleMessage s a)) = []"
proof -
  have listener: "onReportSubmitted s \<noteq> None"
    using throws by (cases "onReportSubmitted s") (simp_all add: listenerThrows_def callListener_def)
  have call: "callListener s (fc_args fc) = ([ReportSubmitted (fc_args fc)], Throws)"
    using throws by (cases "onReportSubmitted s") (simp_all add: listenerThrows_def callListener_def)
  have loop: "fst (handleCalls s now i (before @ fc # after)) =
        map (\<lambda>x. ReportSubmitted (fc_args x)) (reportRequests before @ [fc]) \<and>
      snd (snd (handleCalls s now i (before @ fc # after))) = Throws" for now i
    using earlier
  proof (induction before arbitrary: i)
    case Nil
    then show ?case by (simp add: name call reportRequests_def)
  next
    case (Cons x xs)
    have rest: "\<forall>y \<in> set (reportRequests xs). \<not> listenerThrows s y"
      using Cons.prems by (simp add: reportRequests_def)
    note IH = Cons.IH [OF rest, of "Suc i"]
    show ?case
    proof (cases "fc_name x = ''reportEmergency''")
      case False
      then show ?thesis using IH by (simp add: reportRequests_def)
    next
      case True
      then have "\<not> listenerThrows s x"
        using Cons.prems by (simp add: reportRequests_def)
      then have "callListener s (fc_args x) = ([ReportSubmitted (fc_args x)], Returns)"
        using listener by (simp add: callListener_returns)
      then show ?thesis
        using IH True by (simp add: case_prod_unfold Let_def reportRequests_def)
    qed
  qed
  have "runToolCall s a =
      (map (\<lambda>x. ReportSubmitted (fc_args x)) (reportRequests before @ [fc]), Throws)"
    using loop [of "dateNow a" 0] by (simp add: runToolCall_unfold calls del: map_append)
  then show ?thesis
    by (simp add: handleMessageCompletion_eq handleMessage_events handleToolCall_def
        submitted_append toolResponses_append handleAudio_no_calls
        submitted_reports toolResponses_reports del: map_append)
qed

text \<open>
  The application's listener throws on a request with no argument object: the second
  request of the message gets no call, and nothing is sent although the session is set.
\<close>

lemma listener_throw_example:
  "handleMessageCompletion liveService bareArrival = Throws \<and>
   submitted (snd (handleMessage liveService bareArrival)) = [None] \<and>
   toolResponses (snd (handleMessage liveService bareArrival)) = []"
  by (simp add: handleMessageCompletion_def handleMessage_def handleAudio_def handleToolCall_def
      runToolCall_def callListener_def appListener_def liveService_def bareArrival_def
      bareCall_def fireCall_def submitted_def toolResponses_def Let_def)

text \<open>
  C1 (as amended): for every inbound message carrying tool-call requests in which no call
  of the listener throws, \<open>handleMessage\<close> returns, and the listener
  \<open>onReportSubmitted\<close>, when one is registered, is called once for each request named
  reportEmergency, in order, with that request's argument object, and not at all when none
  is registered. When the current-session reference is set and there is at least one such
  request, one \<open>sendToolResponse\<close> is sent, carrying one response for each such request,
  in order, with that request's id and the status success; when the reference is null
  nothing is sent. Requests with another name cause neither a call nor a response.
\<close>

theorem report_calls_answered:
  assumes calls: "toolCall (message a) = Some fcs"
    and returns: "\<forall>fc \<in> set (reportRequests fcs). \<not> listenerThrows s fc"
  shows "(let ev = snd (handleMessage s a);
              reqs = reportRequests fcs;
              responses = fst (snd (handleCalls s (dateNow a) 0 fcs))
          in handleMessageCompletion s a = Returns \<and>
             submitted ev = (if onReportSubmitted s = None then [] else map fc_args reqs) \<and>
             toolResponses ev =
               (case currentSession s of
                  Some ch \<Rightarrow> if reqs = [] then [] else [(ch, responses)]
                | None \<Rightarrow> []) \<and>
             map resp_id responses = map fc_id reqs \<and>
             map resp_status responses = map (\<lambda>fc. ''success'') reqs)"
proof -
  let ?rs = "fst (snd (handleCalls s (dateNow a) 0 fcs))"
  let ?evs = "if onReportSubmitted s = None then []
    else map (\<lambda>fc. ReportSubmitted (fc_args fc)) (reportRequests fcs)"
  note loop = handleCalls_returns [OF returns, of "dateNow a" 0]
  have empty: "?rs = [] \<longleftrightarrow> reportRequests fcs = []"
    using loop by (metis map_is_Nil_conv)
  have run: "runToolCall s a =
      (?evs @ (if ?rs \<noteq> []
               then (case currentSession s of
                       Some ch \<Rightarrow> [SendToolResponse ch ?rs]
                     | None \<Rightarrow> [])
               else []),
       Returns)"
    using loop calls by (simp add: runToolCall_unfold)
  have sub: "submitted (handleToolCall s a) =
      (if onReportSubmitted s = None then [] else map fc_args (reportRequests fcs))"
    by (cases "currentSession s")
      (simp_all add: handleToolCall_def run submitted_append submitted_reports,
        simp_all add: submitted_def)
  have resp: "toolResponses (handleToolCall s a) =
      (case currentSession s of
         Some ch \<Rightarrow> if reportRequests fcs = [] then [] else [(ch, ?rs)]
       | None \<Rightarrow> [])"
    by (cases "currentSession s")
      (simp_all add: handleToolCall_def run toolResponses_append toolResponses_reports empty,
        simp_all add: toolResponses_def)
  show ?thesis
    using sub resp loop
    by (simp add: Let_def handleMessage_events submitted_append toolResponses_append
        handleAudio_no_calls handleMessageCompletion_eq run)
qed

theorem report_calls_answered_witness:
  "toolCall (message fireArrival) = Some [fireCall, otherCall] \<and>
   \<not> listenerThrows liveService fireCall \<and>
   handleMessageCompletion liveService fireArrival = Returns \<and>
   submitted (snd (handleMessage liveService fireArrival)) = [Some fireDraft] \<and>
   toolResponses (snd (handleMessage liveService fireArrival)) =
     [(3, [\<lparr>resp_id = ''call-1'', resp_name = ''reportEmergency'', resp_status = ''success'',
            resp_ticketId = 1000\<rparr>])]"
proof -
  have calls: "toolCall (message fireArrival) = Some [fireCall, otherCall]"
    by (simp add: fireArrival_def)
  have quiet: "\<not> listenerThrows liveService fireCall"
    by (simp add: listenerThrows_def callListener_def liveService_def fireCall_def
        appListener_def)
  then have returns: "\<forall>fc \<in> set (reportRequests [fireCall, otherCall]).
      \<not> listenerThrows liveService fc"
    by (simp add: reportRequests_def fireCall_def otherCall_def)
  from report_calls_answered [OF calls returns]
  have returned: "handleMessageCompletion liveService fireArrival = Returns"
    by (simp add: Let_def)
  have called: "submitted (snd (handleMessage liveService fireArrival)) = [Some fireDraft]"
    by (simp add: handleMessage_def handleAudio_def handleToolCall_def runToolCall_def
        callListener_def appListener_def liveService_def fireArrival_def fireCall_def
        otherCall_def submitted_def Let_def)
  have sent: "toolResponses (snd (handleMessage liveService fireArrival)) =
     [(3, [\<lparr>resp_id = ''call-1'', resp_name = ''reportEmergency'', resp_status = ''success'',
            resp_ticketId = 1000\<rparr>])]"
    by (simp add: handleMessage_def handleAudio_def handleToolCall_def runToolCall_def
        callListener_def appListener_def liveService_def fireArrival_def fireCall_def
        otherCall_def toolResponses_def Let_def)
  show ?thesis
    using calls quiet returned called sent by (intro conjI)
qed

theorem report_calls_counterexample:
  "toolCall (message fireArrival) = Some [fireCall, otherCall] \<and>
   fc_name fireCall = ''reportEmergency'' \<and>
   currentSession stoppedService = None \<and>
   handleMessageCompletion stoppedService fireArrival = Returns \<and>
   submitted (snd (handleMessage stoppedService fireArrival)) = [Some fireDraft] \<and>
   toolResponses (snd (handleMessage stoppedService fireArrival)) = []"
  by (simp add: stoppedService_def stop_def liveService_def fireArrival_def fireCall_def
      otherCall_def handleMessage_def handleMessageCompletion_def handleAudio_def
      handleToolCall_def runToolCall_def callListener_def appListener_def submitted_def
      toolResponses_def Let_def)

section \<open>Lemmas on the lifecycle\<close>

lemma liveService_reached:
  "(let (r, s1, w1, ev1) = connect grantedEnv None listeningService newBrowser;
        (s2, w2, ev2) = handleOpen s1 w1
    in r = Inr () \<and> s2 = liveService \<and> w2 = liveBrowser)"
  by (simp add: connect_def handleOpen_def grantedEnv_def listeningService_def newService_def
      newBrowser_def liveService_def liveBrowser_def Let_def notifyStatus_def)
    (simp add: numeral_2_eq_2 numeral_3_eq_3 insert_commute
      numeral_eq_Suc [of "num.Bit0 (num.Bit0 num.One)"]
      numeral_eq_Suc [of "num.Bit1 (num.Bit0 num.One)"]
      numeral_eq_Suc [of "num.Bit0 (num.Bit1 num.One)"])

lemma heldBy_empty:
  "heldBy s = {} \<longleftrightarrow>
     inputAudioContext s = None \<and> outputAudioContext s = None \<and> stream s = None \<and>
     processor s = None \<and> source s = None \<and> currentSession s = None"
  by (auto simp: heldBy_def)

lemma stop_released:
  assumes "heldBy s = {}"
  shows "stop s w = (s, w, notifyStatus s ''Disconnected'')"
proof -
  have "s\<lparr>processor := None, source := None, stream := None, inputAudioContext := None,
          outputAudioContext := None, currentSession := None\<rparr> = s"
    using assms by (cases s) (simp add: heldBy_empty)
  then show ?thesis
    using assms by (simp add: stop_def heldBy_empty)
qed

lemma stop_heldBy: "heldBy (fst (stop s w)) = {}"
  by (simp add: stop_def heldBy_def)

lemma stop_listener: "notifyStatus (fst (stop s w)) txt = notifyStatus s txt"
  by (simp add: stop_def notifyStatus_def)

lemma stopTimes_released:
  assumes "heldBy s = {}"
  shows "stopTimes n s w = (s, w, concat (replicate n (notifyStatus s ''Disconnected'')))"
  by (induction n) (simp_all add: stop_released [OF assms])

lemma Suc3: "Suc (Suc (Suc n)) = n + 3"
  by simp

lemma Suc4: "Suc (Suc (Suc (Suc n))) = n + 4"
  by simp

lemma connect_granted:
  assumes "micGranted env" and "channelOpens env"
  shows "connect env userLocation s w =
     (Inr (),
      s\<lparr>inputAudioContext := Some (fresh w), outputAudioContext := Some (fresh w + 1),
         stream := Some (fresh w + 2), sessionPromise := Some (fresh w + 3),
         currentSession := Some (fresh w + 3)\<rparr>,
      w\<lparr>fresh := fresh w + 4,
         openContexts := openContexts w \<union> {fresh w, fresh w + 1},
         liveStreams := liveStreams w \<union> {fresh w + 2},
         openChannels := openChannels w \<union> {fresh w + 3}\<rparr>,
      notifyStatus s ''Initializing Audio...''
      @ [CreateAudioContext (fresh w) 16000, CreateAudioContext (fresh w + 1) 24000]
      @ (if inputSuspended env then [ResumeContext (fresh w)] else [])
      @ (if outputSuspended env then [ResumeContext (fresh w + 1)] else [])
      @ notifyStatus s ''Requesting Mic...''
      @ [GetUserMedia (fresh w + 2)] @ notifyStatus s ''Connecting to HQ...''
      @ [LiveConnect (fresh w + 3) userLocation])"
  using assms by (simp add: connect_def Let_def) (simp add: Suc3 Suc4)

lemma wellFormed_bound: "wellFormed w \<Longrightarrow> h \<in> allocated w \<Longrightarrow> h < fresh w"
  by (simp add: wellFormed_def)

section \<open>The capture callback without a channel\<close>

text \<open>
  C5: when the capture callback runs while the current-session reference is null, it
  raises no error and writes no field, it sends nothing, and the audio level is still
  notified to the listener (when one is registered). The frame is not kept: a later
  callback, with a session set, sends its own frame only.
\<close>

theorem capture_without_channel:
  assumes "currentSession s = None"
  shows "(let (s1, ev) = onaudioprocess encodeFrame s inputData
          in s1 = s \<and> realtimeInputs ev = [] \<and>
             ev = (if onAudioLevel s then [AudioLevel (rms inputData)] else []) \<and>
             (\<forall>ch later. realtimeInputs (snd (onaudioprocess encodeFrame
                  (s1\<lparr>currentSession := Some ch\<rparr>) later)) = [(ch, encodeFrame later)]))"
  using assms by (simp add: onaudioprocess_def realtimeInputs_def)

theorem capture_without_channel_witness:
  "currentSession stoppedService = None \<and>
   fst (onaudioprocess (\<lambda>frame. ''AAAA'') stoppedService [0, 0]) = stoppedService \<and>
   snd (onaudioprocess (\<lambda>frame. ''AAAA'') stoppedService [0, 0]) = [AudioLevel (rms [0, 0])] \<and>
   realtimeInputs (snd (onaudioprocess (\<lambda>frame. ''AAAA'')
      (stoppedService\<lparr>currentSession := Some 3\<rparr>) [1, 1])) = [(3, ''AAAA'')]"
proof -
  have off: "currentSession stoppedService = None"
    by (simp add: stoppedService_def stop_def)
  have level: "onAudioLevel stoppedService"
    by (simp add: stoppedService_def stop_def liveService_def)
  note dropped =
    capture_without_channel [OF off, of "\<lambda>frame. ''AAAA''" "[0, 0]",
      unfolded Let_def case_prod_unfold]
  from dropped
  have same: "fst (onaudioprocess (\<lambda>frame. ''AAAA'') stoppedService [0, 0]) = stoppedService"
    by blast
  from dropped level
  have heard: "snd (onaudioprocess (\<lambda>frame. ''AAAA'') stoppedService [0, 0]) =
      [AudioLevel (rms [0, 0])]"
    by simp
  from dropped
  have "realtimeInputs (snd (onaudioprocess (\<lambda>frame. ''AAAA'')
      (fst (onaudioprocess (\<lambda>frame. ''AAAA'') stoppedService [0, 0])
         \<lparr>currentSession := Some 3\<rparr>) [1, 1])) = [(3, ''AAAA'')]"
    by blast
  then have later: "realtimeInputs (snd (onaudioprocess (\<lambda>frame. ''AAAA'')
      (stoppedService\<lparr>currentSession := Some 3\<rparr>) [1, 1])) = [(3, ''AAAA'')]"
    by (simp only: same)
  show ?thesis
    using off same heard later by (intro conjI)
qed

section \<open>Teardown\<close>

text \<open>
  C7: \<open>stop()\<close> is idempotent. After one call every resource field is null; a second
  call changes neither the instance nor the browser and releases nothing, it only
  notifies the status again; \<open>n\<close> further calls add \<open>n\<close> status notifications and
  nothing else; and on an instance that holds nothing \<open>stop()\<close> is that no-op already.
\<close>

theorem stop_idempotent:
  "(let (s1, w1, ev1) = stop s w; (s2, w2, ev2) = stop s1 w1
    in heldBy s1 = {} \<and> s2 = s1 \<and> w2 = w1 \<and> releases ev2 = [] \<and>
       ev2 = notifyStatus s ''Disconnected'' \<and>
       (\<forall>n. stopTimes (Suc n) s w =
          (s1, w1, ev1 @ concat (replicate n (notifyStatus s ''Disconnected''))))) \<and>
   (heldBy s = {} \<longrightarrow> stop s w = (s, w, notifyStatus s ''Disconnected''))"
proof -
  obtain s1 w1 ev1 where first: "stop s w = (s1, w1, ev1)"
    by (cases "stop s w") auto
  have held: "heldBy s1 = {}"
    using stop_heldBy [of s w] by (simp add: first)
  have listener: "notifyStatus s1 ''Disconnected'' = notifyStatus s ''Disconnected''"
    using stop_listener [of s w] by (simp add: first)
  have quiet: "releases (notifyStatus s ''Disconnected'') = []"
    by (simp add: releases_def notifyStatus_def)
  have again: "heldBy s = {} \<longrightarrow> stop s w = (s, w, notifyStatus s ''Disconnected'')"
    by (simp add: stop_released)
  have "heldBy s1 = {} \<and> stop s1 w1 = (s1, w1, notifyStatus s ''Disconnected'') \<and>
      (\<forall>n. stopTimes (Suc n) s w =
         (s1, w1, ev1 @ concat (replicate n (notifyStatus s ''Disconnected''))))"
    using held by (simp add: first stop_released [OF held] stopTimes_released [OF held] listener)
  then show ?thesis
    using quiet again by (simp add: first)
qed

theorem stop_idempotent_witness:
  "heldBy stoppedService = {} \<and>
   stop stoppedService (fst (snd (stop liveService liveBrowser))) =
     (stoppedService, fst (snd (stop liveService liveBrowser)), [StatusChange ''Disconnected'']) \<and>
   releases (snd (snd (stop liveService liveBrowser))) =
     [ProcessorDisconnect 5, ClearOnAudioProcess 5, SourceDisconnect 4, TrackStop 2,
      CloseContext 0, CloseContext 1]"
  using stop_idempotent [of liveService liveBrowser]
  by (simp add: stoppedService_def case_prod_unfold Let_def)
    (simp add: stop_def liveService_def liveBrowser_def notifyStatus_def releases_def)

text \<open>
  C4: the on-error callback of the channel does not tear down. At a live session it logs
  the error and notifies the status, and the instance and the browser are as before: the
  processor, the source, the stream, both contexts and the channel reference stay held.
  The on-close callback, at the same session, releases all of them.
\<close>

theorem onerror_keeps_resources:
  "fst (onerror liveService liveBrowser) = liveService \<and>
   fst (snd (onerror liveService liveBrowser)) = liveBrowser \<and>
   snd (snd (onerror liveService liveBrowser)) =
     [ConsoleError ''Live API Error:'', StatusChange ''Connection Error''] \<and>
   heldBy liveService = {0, 1, 2, 5, 4, 3} \<and>
   openContexts liveBrowser = {0, 1} \<and> liveStreams liveBrowser = {2} \<and>
   wiredNodes liveBrowser = {4, 5} \<and>
   heldBy (fst (onclose liveService liveBrowser)) = {} \<and>
   openContexts (fst (snd (onclose liveService liveBrowser))) = {} \<and>
   liveStreams (fst (snd (onclose liveService liveBrowser))) = {} \<and>
   wiredNodes (fst (snd (onclose liveService liveBrowser))) = {}"
  by (auto simp: onerror_def onclose_def stop_def liveService_def liveBrowser_def heldBy_def
      notifyStatus_def)

section \<open>connect\<close>

text \<open>
  C3 (as amended): \<open>connect()\<close> does not look at the state of the instance. Whenever the
  microphone is granted and the channel opens it succeeds: it takes two new audio
  contexts, a new stream and a new channel, stores them in the fields of the instance,
  and releases nothing; in a well-formed browser the four are distinct from everything
  open before. So an instance that held nothing holds one set afterwards, and a second
  \<open>connect()\<close> with no teardown in between leaves two sets open, the fields naming the
  second.
\<close>

theorem connect_takes_new_resources:
  assumes "micGranted env" and "channelOpens env"
  shows "(let (r, s1, w1, ev) = connect env userLocation s w;
              ic = fresh w; oc = fresh w + 1; st = fresh w + 2; ch = fresh w + 3
          in r = Inr () \<and>
             s1 = s\<lparr>inputAudioContext := Some ic, outputAudioContext := Some oc,
                    stream := Some st, sessionPromise := Some ch, currentSession := Some ch\<rparr> \<and>
             w1 = w\<lparr>fresh := fresh w + 4, openContexts := openContexts w \<union> {ic, oc},
                    liveStreams := liveStreams w \<union> {st},
                    openChannels := openChannels w \<union> {ch}\<rparr> \<and>
             releases ev = [] \<and>
             (wellFormed w \<longrightarrow> wellFormed w1 \<and> {ic, oc, st, ch} \<inter> allocated w = {}))"
proof -
  let ?w1 = "w\<lparr>fresh := fresh w + 4,
         openContexts := openContexts w \<union> {fresh w, fresh w + 1},
         liveStreams := liveStreams w \<union> {fresh w + 2},
         openChannels := openChannels w \<union> {fresh w + 3}\<rparr>"
  have quiet: "releases (snd (snd (snd (connect env userLocation s w)))) = []"
    by (simp add: connect_granted [OF assms] releases_def notifyStatus_def)
  have new: "{fresh w, fresh w + 1, fresh w + 2, fresh w + 3} \<inter> allocated w = {}"
    if "wellFormed w"
    using wellFormed_bound [OF that] by fastforce
  have wf: "wellFormed ?w1" if "wellFormed w"
    unfolding wellFormed_def
  proof
    fix h assume "h \<in> allocated ?w1"
    then have "h \<in> allocated w \<or> h < fresh w + 4"
      by (auto simp: allocated_def)
    then show "h < fresh ?w1"
      using wellFormed_bound [OF that, of h] by auto
  qed
  show ?thesis
    using quiet new wf by (simp add: connect_granted [OF assms] Let_def)
qed

theorem connect_takes_new_resources_witness:
  "micGranted grantedEnv \<and> channelOpens grantedEnv \<and> wellFormed newBrowser \<and>
   fst (connect grantedEnv None listeningService newBrowser) = Inr () \<and>
   openContexts (fst (snd (snd (connect grantedEnv None listeningService newBrowser)))) = {0, 1} \<and>
   liveStreams (fst (snd (snd (connect grantedEnv None listeningService newBrowser)))) = {2} \<and>
   openChannels (fst (snd (snd (connect grantedEnv None listeningService newBrowser)))) = {3}"
  using connect_takes_new_resources [of grantedEnv None listeningService newBrowser]
  by (simp add: grantedEnv_def newBrowser_def wellFormed_def allocated_def case_prod_unfold
      Let_def)

theorem second_connect_counterexample:
  "fst secondConnect = Inr () \<and>
   fst (snd secondConnect) \<noteq> liveService \<and>
   openContexts (fst (snd (snd secondConnect))) = {0, 1, 6, 7} \<and>
   liveStreams (fst (snd (snd secondConnect))) = {2, 8} \<and>
   openChannels (fst (snd (snd secondConnect))) = {3, 9} \<and>
   inputAudioContext (fst (snd secondConnect)) = Some 6 \<and>
   outputAudioContext (fst (snd secondConnect)) = Some 7"
  by (simp add: secondConnect_def connect_def grantedEnv_def liveService_def liveBrowser_def
      Let_def notifyStatus_def insert_commute)

text \<open>
  C8 (as amended): when the microphone is refused, \<open>connect()\<close> fails with the
  permission error. No stream and no channel is taken. The two audio contexts created
  before the request are not released by \<open>connect()\<close>: they stay open and stay in the
  fields of the instance, and a later \<open>stop()\<close> closes them.
\<close>

theorem connect_mic_denied:
  assumes "\<not> micGranted env"
  shows "(let (r, s1, w1, ev) = connect env userLocation s w; (s2, w2, ev2) = stop s1 w1
          in r = Inl PermissionError \<and>
             s1 = s\<lparr>inputAudioContext := Some (fresh w),
                    outputAudioContext := Some (fresh w + 1)\<rparr> \<and>
             w1 = w\<lparr>fresh := fresh w + 2,
                    openContexts := openContexts w \<union> {fresh w, fresh w + 1}\<rparr> \<and>
             releases ev = [] \<and>
             heldBy s2 = {} \<and> fresh w \<notin> openContexts w2 \<and> fresh w + 1 \<notin> openContexts w2)"
  using assms
  by (simp add: connect_def Let_def releases_def notifyStatus_def stop_def heldBy_def)

theorem connect_mic_denied_witness:
  "\<not> micGranted deniedEnv \<and>
   fst (connect deniedEnv None listeningService newBrowser) = Inl PermissionError \<and>
   openContexts (fst (snd (snd (connect deniedEnv None listeningService newBrowser)))) = {0, 1} \<and>
   stream (fst (snd (connect deniedEnv None listeningService newBrowser))) = None"
  using connect_mic_denied [of deniedEnv None listeningService newBrowser]
  by (simp add: deniedEnv_def newBrowser_def listeningService_def newService_def
      case_prod_unfold Let_def)

theorem mic_denied_counterexample:
  "fst deniedConnect = Inl PermissionError \<and>
   inputAudioContext (fst (snd deniedConnect)) = Some 0 \<and>
   outputAudioContext (fst (snd deniedConnect)) = Some 1 \<and>
   openContexts (fst (snd (snd deniedConnect))) = {0, 1} \<and>
   releases (snd (snd (snd deniedConnect))) = []"
  by (simp add: deniedConnect_def connect_def deniedEnv_def listeningService_def newService_def
      newBrowser_def Let_def notifyStatus_def releases_def)

section \<open>Location resolution\<close>

text \<open>
  A coordinate is non-numeric when \<open>Number\<close> of it is NaN (an absent property, or NaN
  itself); \<open>null\<close> converts to 0.
\<close>



section \<open>The codec round trip\<close>

lemma word_cat_bytes:
  "word_cat (ucast (drop_bit 8 w) :: 8 word) (ucast w :: 8 word) = (w :: 16 word)"
  by (rule bit_word_eqI) (auto simp: bit_word_cat_iff bit_ucast_iff bit_drop_bit_eq)

lemma sint_int16:
  "- 32768 \<le> k \<Longrightarrow> k \<le> 32767 \<Longrightarrow> sint (word_of_int k :: 16 word) = k"
  by (simp add: sint_sbintrunc' signed_take_bit_int_eq_self)

lemma trunc_near: "\<bar>real_of_int (trunc y) - y\<bar> < 1"
  unfolding trunc_def by (auto; linarith)

lemma round_near: "\<bar>real_of_int (round y) - y\<bar> < 1"
  using of_int_round_abs_le [of y] by linarith

lemma trunc_range:
  assumes "- 32767 \<le> y" "y \<le> 32767"
  shows "- 32767 \<le> trunc y \<and> trunc y \<le> 32767"
  using assms unfolding trunc_def
  by (auto simp: le_floor_iff le_ceiling_iff floor_le_iff ceiling_le_iff)

lemma round_range:
  fixes y :: real
  assumes "- 32767 \<le> y" "y \<le> 32767"
  shows "- 32767 \<le> round y \<and> round y \<le> 32767"
  using assms unfolding round_def by (simp add: le_floor_iff floor_le_iff)

lemma toInt16_near:
  assumes "- 1 \<le> x" "x \<le> 1"
  shows "- 32768 \<le> toInt16 mode x \<and> toInt16 mode x \<le> 32767 \<and>
         \<bar>real_of_int (toInt16 mode x) - x * 32767\<bar> < 1"
proof -
  have y: "- 32767 \<le> x * 32767" "x * 32767 \<le> 32767"
    using assms by simp_all
  show ?thesis
  proof (cases mode)
    case Truncate
    then show ?thesis
      using trunc_range [OF y] trunc_near [of "x * 32767"] by (simp add: toInt16_def)
  next
    case Nearest
    then show ?thesis
      using round_range [OF y] round_near [of "x * 32767"] by (simp add: toInt16_def)
  qed
qed

lemma sample_roundtrip:
  assumes "- 1 \<le> x" "x \<le> 1"
  shows "decodeSamples (encodeSample mode x @ rest) =
           real_of_int (toInt16 mode x) / 32767 # decodeSamples rest \<and>
         \<bar>real_of_int (toInt16 mode x) / 32767 - x\<bar> \<le> 1 / 32767"
proof -
  let ?q = "toInt16 mode x"
  note q = toInt16_near [OF assms, of mode]
  have "decodeSamples (encodeSample mode x @ rest) = real_of_int ?q / 32767 # decodeSamples rest"
    using q by (simp add: encodeSample_def Let_def decodeSample_def word_cat_bytes sint_int16)
  moreover have "\<bar>(real_of_int ?q - x * 32767) / 32767\<bar> \<le> 1 / 32767"
    using q by (simp add: divide_le_cancel)
  moreover have "(real_of_int ?q - x * 32767) / 32767 = real_of_int ?q / 32767 - x"
    by (simp add: diff_divide_distrib)
  ultimately show ?thesis by simp
qed

lemma decodeSamples_encode:
  assumes "\<forall>x \<in> set xs. - 1 \<le> x \<and> x \<le> 1"
  shows "decodeSamples (encode mode xs) = map (\<lambda>x. real_of_int (toInt16 mode x) / 32767) xs"
  using assms
proof (induction xs)
  case Nil
  then show ?case by (simp add: encode_def)
next
  case (Cons x xs)
  then have "- 1 \<le> x" "x \<le> 1" by simp_all
  from sample_roundtrip [OF this, of mode "encode mode xs"] Cons show ?case
    by (simp add: encode_def)
qed

lemma length_encode: "length (encode mode xs) = 2 * length xs"
  by (induction xs) (simp_all add: encode_def encodeSample_def Let_def)

text \<open>
  C9: for every finite sequence of samples in [-1, 1], with either rounding, decoding the
  bytes of the 16-bit little-endian encoder (for a channel count that divides the number
  of samples, such as 1) succeeds and gives as many samples, each within 1/32767 of the
  original.
\<close>

theorem codec_roundtrip:
  assumes range: "\<forall>x \<in> set xs. - 1 \<le> x \<and> x \<le> 1"
    and channels: "0 < channelCount" "channelCount dvd length xs"
  shows "(case decode (encode mode xs) rate channelCount of
            Inl e \<Rightarrow> False
          | Inr buf \<Rightarrow>
              length (samples buf) = length xs \<and>
              (\<forall>i < length xs. \<bar>samples buf ! i - xs ! i\<bar> \<le> 1 / 32767))"
proof -
  have frames: "length (encode mode xs) mod (2 * channelCount) = 0"
    using channels by (simp add: length_encode)
  have "\<bar>real_of_int (toInt16 mode (xs ! i)) / 32767 - xs ! i\<bar> \<le> 1 / 32767"
    if "i < length xs" for i
  proof -
    have "- 1 \<le> xs ! i" "xs ! i \<le> 1" using range that by simp_all
    from sample_roundtrip [OF this, of mode "[]"] show ?thesis by simp
  qed
  then show ?thesis
    using channels(1) frames by (simp add: decode_def decodeSamples_encode [OF range])
qed

theorem codec_roundtrip_witness:
  "encode Truncate [1 / 2, - 1] = [255, 63, 1, 128] \<and>
   decode [255, 63, 1, 128] 16000 1 =
     Inr \<lparr>sampleRate = 16000, numberOfChannels = 1, samples = [16383 / 32767, - 1]\<rparr> \<and>
   decode (encode Truncate [1 / 2, - 1]) 16000 1 \<noteq> Inl DecodeError"
proof -
  have bytes: "encode Truncate [1 / 2, - 1] = [255, 63, 1, 128]"
    by (simp add: encode_def encodeSample_def toInt16_def trunc_def Let_def)
  have samples: "decode [255, 63, 1, 128] 16000 1 =
      Inr \<lparr>sampleRate = 16000, numberOfChannels = 1, samples = [16383 / 32767, - 1]\<rparr>"
    by (simp add: decode_def decodeSample_def word_cat_eq)
  have range: "\<forall>x \<in> set [1 / 2, - 1 :: real]. - 1 \<le> x \<and> x \<le> 1"
    by simp
  from codec_roundtrip [OF range, of 1 Truncate 16000]
  have ok: "decode (encode Truncate [1 / 2, - 1]) 16000 1 \<noteq> Inl DecodeError"
    by (auto split: sum.splits)
  show ?thesis
    using bytes samples ok by (intro conjI)
qed

end
